theory Spec2Isabelle
  imports Main "HOL-Library.Word"
begin

section \<open>Strings, exceptions and the Python built-ins the module calls\<close>

text \<open>
  The module under study is \<^verbatim>\<open>src/Python/download_data/config_utils.py\<close>.
  A Python \<^verbatim>\<open>str\<close> is a sequence of Unicode code points, so it is modelled as a
  list of naturals; \<open>s ''abc''\<close> writes an ASCII literal. A raised exception is the
  \<open>Inl\<close> side of a sum; each exception carries its message.
\<close>

type_synonym str = "nat list"

type_synonym byte = "8 word"

definition s :: "string \<Rightarrow> str" where
  "s lit = map of_char lit"

datatype exn =
    OSError str
  | FileNotFoundError str
  | PermissionError str
  | IsADirectoryError str
  | ValueError str
  | UnicodeDecodeError str
  | IndexError str

text \<open>\<^verbatim>\<open>except OSError\<close> also catches the subclasses of \<^verbatim>\<open>OSError\<close>.\<close>

fun is_OSError :: "exn \<Rightarrow> bool" where
  "is_OSError (OSError m) = True"
| "is_OSError (FileNotFoundError m) = True"
| "is_OSError (PermissionError m) = True"
| "is_OSError (IsADirectoryError m) = True"
| "is_OSError (ValueError m) = False"
| "is_OSError (UnicodeDecodeError m) = False"
| "is_OSError (IndexError m) = False"

text \<open>
  \<^verbatim>\<open>str.split(sep)\<close> for a one-character separator: the result is never empty,
  and adjacent separators give empty segments.
\<close>

fun str_split :: "str \<Rightarrow> nat \<Rightarrow> str list" where
  "str_split [] sep = [[]]"
| "str_split (c # cs) sep =
     (if c = sep then [] # str_split cs sep
      else (case str_split cs sep of
              [] \<Rightarrow> [[c]]
            | seg # segs \<Rightarrow> (c # seg) # segs))"

text \<open>\<^verbatim>\<open>sep.join(parts)\<close>.\<close>

fun str_join :: "str \<Rightarrow> str list \<Rightarrow> str" where
  "str_join sep [] = []"
| "str_join sep [x] = x"
| "str_join sep (x # y # ys) = x @ sep @ str_join sep (y # ys)"

text \<open>\<^verbatim>\<open>xs[-1]\<close> raises \<^verbatim>\<open>IndexError\<close> on an empty list; \<^verbatim>\<open>xs[:-1]\<close> never raises.\<close>

definition index_last :: "'a list \<Rightarrow> exn + 'a" where
  "index_last xs =
     (case xs of [] \<Rightarrow> Inl (IndexError (s ''list index out of range''))
      | _ # _ \<Rightarrow> Inr (last xs))"

definition slice_but_last :: "'a list \<Rightarrow> 'a list" where
  "slice_but_last xs = butlast xs"

subsection \<open>pathlib: the POSIX flavour of \<^verbatim>\<open>Path\<close>\<close>

text \<open>
  \<^verbatim>\<open>Path(p)\<close> parses a string into a root (\<^verbatim>\<open>''\<close>, \<^verbatim>\<open>'/'\<close> or \<^verbatim>\<open>'//'\<close>) and the
  components between slashes, dropping empty components and \<^verbatim>\<open>'.'\<close>. \<^verbatim>\<open>name\<close> is the
  last component (\<^verbatim>\<open>''\<close> when there is none), \<^verbatim>\<open>suffix\<close> is
  \<^verbatim>\<open>name[i:] if 0 < i < len(name) - 1 else ''\<close> for \<^verbatim>\<open>i = name.rfind('.')\<close>, and
  \<^verbatim>\<open>stem\<close> is the name without that suffix (pathlib of Python 3.8 to 3.13, the
  versions the pinned pandas and spaCy run on).
\<close>

datatype path = PurePath (root: str) (parts: "str list")

definition slash :: nat where
  "slash = of_char (CHR ''/'')"

definition dot :: nat where
  "dot = of_char (CHR ''.'')"

definition underscore :: nat where
  "underscore = of_char (CHR ''_'')"

definition Path :: "str \<Rightarrow> path" where
  "Path p =
     (let n = length (takeWhile (\<lambda>c. c = slash) p)
      in PurePath (if n = 0 then [] else if n = 2 then [slash, slash] else [slash])
           (filter (\<lambda>x. x \<noteq> [] \<and> x \<noteq> [dot]) (str_split p slash)))"

definition fspath :: "path \<Rightarrow> str" where
  "fspath p =
     (if root p = [] \<and> parts p = [] then [dot]
      else root p @ str_join [slash] (parts p))"

definition name :: "path \<Rightarrow> str" where
  "name p = (if parts p = [] then [] else last (parts p))"

text \<open>\<^verbatim>\<open>name.rfind('.')\<close>, with \<open>None\<close> for Python's \<^verbatim>\<open>-1\<close>.\<close>

fun rfind :: "str \<Rightarrow> nat \<Rightarrow> nat option" where
  "rfind [] c = None"
| "rfind (x # xs) c =
     (case rfind xs c of
        Some i \<Rightarrow> Some (Suc i)
      | None \<Rightarrow> if x = c then Some 0 else None)"

definition suffix :: "path \<Rightarrow> str" where
  "suffix p =
     (case rfind (name p) dot of
        None \<Rightarrow> []
      | Some i \<Rightarrow> if 0 < i \<and> i + 1 < length (name p) then drop i (name p) else [])"

definition stem :: "path \<Rightarrow> str" where
  "stem p =
     (case rfind (name p) dot of
        None \<Rightarrow> name p
      | Some i \<Rightarrow> if 0 < i \<and> i + 1 < length (name p) then take i (name p) else name p)"

subsection \<open>Reading a text file: \<^verbatim>\<open>open('r', encoding='utf-8', errors=...)\<close>\<close>

text \<open>
  The UTF-8 decoder of CPython, one character at a time. A step either decodes a code
  point from a number of bytes, or reports an ill-formed sequence and how many bytes the
  error covers (an invalid start byte covers one byte, an invalid continuation byte covers
  the bytes before it), or reports that the data ends inside a character.
\<close>

datatype utf8_result = Decoded nat nat | Malformed nat | Truncated

definition is_continuation :: "byte \<Rightarrow> bool" where
  "is_continuation b = (0x80 \<le> b \<and> b < 0xC0)"

definition bad_second3 :: "byte \<Rightarrow> byte \<Rightarrow> bool" where
  "bad_second3 ch ch2 =
     (\<not> is_continuation ch2 \<or> (if ch2 < 0xA0 then ch = 0xE0 else ch = 0xED))"

definition bad_second4 :: "byte \<Rightarrow> byte \<Rightarrow> bool" where
  "bad_second4 ch ch2 =
     (\<not> is_continuation ch2 \<or> (if ch2 < 0x90 then ch = 0xF0 else ch = 0xF4))"

definition utf8_step :: "byte \<Rightarrow> byte list \<Rightarrow> utf8_result" where
  "utf8_step ch rest =
     (if ch < 0x80 then Decoded (unat ch) 1
      else if ch < 0xE0 then
        (if ch < 0xC2 then Malformed 1
         else case rest of
             [] \<Rightarrow> Truncated
           | ch2 # _ \<Rightarrow>
               if \<not> is_continuation ch2 then Malformed 1
               else Decoded (unat ch * 64 + unat ch2 - (0xC0 * 64 + 0x80)) 2)
      else if ch < 0xF0 then
        (case rest of
           [] \<Rightarrow> Truncated
         | [ch2] \<Rightarrow> if bad_second3 ch ch2 then Malformed 1 else Truncated
         | ch2 # ch3 # _ \<Rightarrow>
             if bad_second3 ch ch2 then Malformed 1
             else if \<not> is_continuation ch3 then Malformed 2
             else Decoded (unat ch * 4096 + unat ch2 * 64 + unat ch3
                           - (0xE0 * 4096 + 0x80 * 64 + 0x80)) 3)
      else if ch < 0xF5 then
        (case rest of
           [] \<Rightarrow> Truncated
         | [ch2] \<Rightarrow> if bad_second4 ch ch2 then Malformed 1 else Truncated
         | [ch2, ch3] \<Rightarrow>
             if bad_second4 ch ch2 then Malformed 1
             else if \<not> is_continuation ch3 then Malformed 2
             else Truncated
         | ch2 # ch3 # ch4 # _ \<Rightarrow>
             if bad_second4 ch ch2 then Malformed 1
             else if \<not> is_continuation ch3 then Malformed 2
             else if \<not> is_continuation ch4 then Malformed 3
             else Decoded (unat ch * 262144 + unat ch2 * 4096 + unat ch3 * 64 + unat ch4
                           - (0xF0 * 262144 + 0x80 * 4096 + 0x80 * 64 + 0x80)) 4)
      else Malformed 1)"

text \<open>
  The error handlers of the codec: \<^verbatim>\<open>'strict'\<close> (the default of \<^verbatim>\<open>open\<close>) raises
  \<^verbatim>\<open>UnicodeDecodeError\<close>, \<^verbatim>\<open>'ignore'\<close> skips the bytes the error covers and goes on.
\<close>

datatype errors = Strict | Ignore

fun utf8_decode :: "errors \<Rightarrow> byte list \<Rightarrow> exn + str" where
  "utf8_decode h [] = Inr []"
| "utf8_decode h (ch # rest) =
     (case utf8_step ch rest of
        Decoded cp n \<Rightarrow>
          (case utf8_decode h (drop (n - 1) rest) of
             Inl e \<Rightarrow> Inl e
           | Inr t \<Rightarrow> Inr (cp # t))
      | Malformed n \<Rightarrow>
          (case h of
             Strict \<Rightarrow> Inl (UnicodeDecodeError (s ''invalid byte''))
           | Ignore \<Rightarrow> utf8_decode h (drop (n - 1) rest))
      | Truncated \<Rightarrow>
          (case h of
             Strict \<Rightarrow> Inl (UnicodeDecodeError (s ''unexpected end of data''))
           | Ignore \<Rightarrow> Inr []))"

text \<open>
  Text mode with the default \<^verbatim>\<open>newline=None\<close> translates \<^verbatim>\<open>'\r\n'\<close> and a lone
  \<^verbatim>\<open>'\r'\<close> to \<^verbatim>\<open>'\n'\<close> after decoding.
\<close>

fun universal_newlines :: "str \<Rightarrow> str" where
  "universal_newlines [] = []"
| "universal_newlines [c] = (if c = 13 then [10] else [c])"
| "universal_newlines (c # d # cs) =
     (if c = 13 \<and> d = 10 then 10 # universal_newlines cs
      else if c = 13 then 10 # universal_newlines (d # cs)
      else c # universal_newlines (d # cs))"

text \<open>
  The file system is what opening a path for reading gives: the exception \<^verbatim>\<open>open\<close>
  raises, or the bytes of the file. \<open>open_read\<close> is
  \<^verbatim>\<open>with p.open('r', encoding='utf-8', errors=h) as f: f.read()\<close>.
\<close>

type_synonym filesystem = "path \<Rightarrow> exn + byte list"

definition open_read :: "filesystem \<Rightarrow> path \<Rightarrow> errors \<Rightarrow> exn + str" where
  "open_read fs p h =
     (case fs p of
        Inl e \<Rightarrow> Inl e
      | Inr bs \<Rightarrow>
          (case utf8_decode h bs of
             Inl e \<Rightarrow> Inl e
           | Inr t \<Rightarrow> Inr (universal_newlines t)))"

subsection \<open>pandas: a table built from a dict of columns\<close>

text \<open>
  \<^verbatim>\<open>pd.DataFrame({name: list, ...})\<close> keeps the columns in the order of the dict and
  raises \<^verbatim>\<open>ValueError\<close> when the lists differ in length.
\<close>

type_synonym dataframe = "(str \<times> str list) list"

definition DataFrame :: "(str \<times> str list) list \<Rightarrow> exn + dataframe" where
  "DataFrame d =
     (if list_all (\<lambda>c. length (snd c) = length (snd (hd d))) d then Inr d
      else Inl (ValueError (s ''All arrays must be of the same length'')))"

definition columns :: "dataframe \<Rightarrow> str list" where
  "columns df = map fst df"

definition nrows :: "dataframe \<Rightarrow> nat" where
  "nrows df = (case df of [] \<Rightarrow> 0 | c # _ \<Rightarrow> length (snd c))"

definition row :: "dataframe \<Rightarrow> nat \<Rightarrow> (str \<times> str) list" where
  "row df i = map (\<lambda>c. (fst c, snd c ! i)) df"

section \<open>\<^verbatim>\<open>get_df\<close>\<close>

text \<open>
  The loop of \<^verbatim>\<open>get_df\<close> over \<^verbatim>\<open>map(Path, text_files)\<close>, with the three lists it
  appends to as the state. An exception leaves the loop at once.
\<close>

fun get_df_loop ::
  "filesystem \<Rightarrow> path list \<Rightarrow> str list \<times> str list \<times> str list
     \<Rightarrow> exn + str list \<times> str list \<times> str list" where
  "get_df_loop fs [] acc = Inr acc"
| "get_df_loop fs (text_path # rest) (countries, years, constitutions) =
     (let stm = stem text_path;
          country_parts = slice_but_last (str_split stm underscore);
          countries' = countries @ [str_join (s '' '') country_parts]
      in case index_last (str_split stm underscore) of
           Inl e \<Rightarrow> Inl e
         | Inr year \<Rightarrow>
             (case open_read fs text_path Ignore of
                Inl e \<Rightarrow> Inl e
              | Inr text \<Rightarrow>
                  get_df_loop fs rest
                    (countries', years @ [year], constitutions @ [text])))"

definition get_df :: "filesystem \<Rightarrow> str list \<Rightarrow> exn + dataframe" where
  "get_df fs text_files =
     (case get_df_loop fs (map Path text_files) ([], [], []) of
        Inl e \<Rightarrow> Inl e
      | Inr (countries, years, constitutions) \<Rightarrow>
          DataFrame [(s ''country'', countries),
                     (s ''year'', years),
                     (s ''constitution'', constitutions)])"

section \<open>\<^verbatim>\<open>lemmatization\<close>\<close>

text \<open>
  spaCy is a collaborator of the module: \<^verbatim>\<open>spacy.load(model, disable=...)\<close> is a
  parameter that raises or returns a pipeline, and a pipeline raises or returns the
  tokens of one text. Of a token the module reads \<^verbatim>\<open>lemma_\<close> and \<^verbatim>\<open>is_punct\<close>.
  \<^verbatim>\<open>str.lower\<close>, a table of Unicode, is a parameter as well.
\<close>

record token =
  lemma_str :: str
  is_punct :: bool

type_synonym language = "str \<Rightarrow> exn + token list"

text \<open>
  \<^verbatim>\<open>util.minibatch(items, size)\<close>: slices of \<^verbatim>\<open>size\<close> items (here \<open>sz\<close>) until a
  slice is empty.
\<close>

fun minibatch :: "'a list \<Rightarrow> nat \<Rightarrow> 'a list list" where
  "minibatch items sz =
     (if sz = 0 \<or> items = [] then []
      else take sz items # minibatch (drop sz items) sz)"

declare minibatch.simps [simp del]

text \<open>Running a step over a list, in order; the first exception ends the run.\<close>

fun collect :: "('a \<Rightarrow> exn + 'b) \<Rightarrow> 'a list \<Rightarrow> exn + 'b list" where
  "collect f [] = Inr []"
| "collect f (x # xs) =
     (case f x of
        Inl e \<Rightarrow> Inl e
      | Inr y \<Rightarrow> (case collect f xs of Inl e \<Rightarrow> Inl e | Inr ys \<Rightarrow> Inr (y # ys)))"

text \<open>\<^verbatim>\<open>nlp.pipe(texts, batch_size=n)\<close>: the documents of each batch, batch after batch.\<close>

definition pipe :: "language \<Rightarrow> str list \<Rightarrow> nat \<Rightarrow> exn + token list list" where
  "pipe nlp texts batch_size =
     (case collect (collect nlp) (minibatch texts batch_size) of
        Inl e \<Rightarrow> Inl e
      | Inr batches \<Rightarrow> Inr (concat batches))"

definition default_model :: str where
  "default_model = s ''en_core_web_lg''"

definition not_found_message :: "str \<Rightarrow> str" where
  "not_found_message model =
     s ''spaCy model '' @ [39] @ model @ [39] @ s '' not found. Install with:\<newline>''
       @ s ''python -m spacy download '' @ model"

definition lemmatization ::
  "(str \<Rightarrow> str list \<Rightarrow> exn + language) \<Rightarrow> (str \<Rightarrow> str) \<Rightarrow> str list \<Rightarrow> str
     \<Rightarrow> exn + str list list" where
  "lemmatization spacy_load lower texts model =
     (case spacy_load model [s ''parser'', s ''ner''] of
        Inl e \<Rightarrow>
          if is_OSError e then Inl (OSError (not_found_message model)) else Inl e
      | Inr nlp \<Rightarrow>
          (case pipe nlp texts 50 of
             Inl e \<Rightarrow> Inl e
           | Inr docs \<Rightarrow>
               Inr (map (\<lambda>doc. map (\<lambda>token. lower (lemma_str token))
                                  (filter (\<lambda>token. \<not> is_punct token) doc))
                        docs)))"

section \<open>\<^verbatim>\<open>save_parquet\<close>\<close>

text \<open>
  The world \<open>'w\<close> is everything outside the process: \<^verbatim>\<open>df.to_parquet\<close> and the
  logger change it, and \<^verbatim>\<open>to_parquet\<close> may raise. Both are parameters.
\<close>

definition save_parquet ::
  "('w \<Rightarrow> dataframe \<Rightarrow> path \<Rightarrow> str \<Rightarrow> str \<Rightarrow> 'w \<times> (exn + unit)) \<Rightarrow> ('w \<Rightarrow> str \<Rightarrow> 'w)
     \<Rightarrow> 'w \<Rightarrow> dataframe \<Rightarrow> str \<Rightarrow> 'w \<times> (exn + unit)" where
  "save_parquet to_parquet logger_info w df p =
     (let path = Path p
      in if suffix path \<noteq> s ''.parquet''
         then (w, Inl (ValueError (s ''Output path must end with .parquet extension'')))
         else (case to_parquet w df path (s ''pyarrow'') (s ''snappy'') of
                 (w', Inl e) \<Rightarrow> (w', Inl e)
               | (w', Inr u) \<Rightarrow>
                   (logger_info w' (s ''Saved Parquet file: '' @ fspath path), Inr ())))"

section \<open>Example inputs\<close>

text \<open>
  A file system with three files: one with a Windows line ending, one with a byte that
  is not UTF-8, one with a two-byte character. Every other path does not exist.
\<close>

definition example_fs :: filesystem where
  "example_fs p =
     (if p = Path (s ''data/raw/South_Africa_1996.txt'') then Inr [0x57, 0x65, 0x0D, 0x0A]
      else if p = Path (s ''Nowhereland.txt'') then Inr [0x41, 0xFF, 0x42]
      else if p = Path (s ''Brazil_1988.tar.gz'') then Inr [0xC3, 0xA9]
      else Inl (FileNotFoundError (fspath p)))"

definition example_files :: "str list" where
  "example_files =
     [s ''data/raw/South_Africa_1996.txt'', s ''Nowhereland.txt'', s ''Brazil_1988.tar.gz'']"

text \<open>
  A pipeline that knows one sentence and the empty text, a loader that knows the default
  model only, and lowercasing of ASCII letters.
\<close>

definition example_nlp :: language where
  "example_nlp text =
     (if text = s ''The Constitution.'' then
        Inr [\<lparr>lemma_str = s ''the'', is_punct = False\<rparr>,
             \<lparr>lemma_str = s ''Constitution'', is_punct = False\<rparr>,
             \<lparr>lemma_str = s ''.'', is_punct = True\<rparr>]
      else if text = [] then Inr []
      else Inl (ValueError (s ''[E088] Text exceeds maximum'')))"

definition example_load :: "str \<Rightarrow> str list \<Rightarrow> exn + language" where
  "example_load model disable =
     (if model = default_model then Inr example_nlp
      else Inl (OSError (s ''[E050] Can't find model'')))"

text \<open>
  A loader that finds the model and cannot read its settings: spaCy reports this with a
  \<^verbatim>\<open>ValueError\<close>, which is not an \<^verbatim>\<open>OSError\<close>.
\<close>

definition example_load_invalid :: "str \<Rightarrow> str list \<Rightarrow> exn + language" where
  "example_load_invalid model disable =
     Inl (ValueError (s ''[E054] No valid setting found in model meta.json''))"

definition ascii_lower :: "str \<Rightarrow> str" where
  "ascii_lower = map (\<lambda>c. if 65 \<le> c \<and> c \<le> 90 then c + 32 else c)"

section \<open>Properties of the built-ins\<close>

lemma str_split_not_Nil: "str_split xs c \<noteq> []"
  by (induction xs) (auto split: list.splits)

lemma index_last_str_split: "index_last (str_split xs c) = Inr (last (str_split xs c))"
  using str_split_not_Nil [of xs c] by (auto simp: index_last_def split: list.splits)

lemma str_split_no_sep: "g \<in> set (str_split xs c) \<Longrightarrow> c \<notin> set g"
proof (induction xs arbitrary: g)
  case Nil
  then show ?case by simp
next
  case (Cons x xs)
  obtain h t where ht: "str_split xs c = h # t"
    using str_split_not_Nil [of xs c] by (cases "str_split xs c") auto
  with Cons show ?case by (auto split: if_splits)
qed

lemma str_join_split: "str_join [c] (str_split xs c) = xs"
proof (induction xs)
  case Nil
  then show ?case by simp
next
  case (Cons x xs)
  obtain h t where ht: "str_split xs c = h # t"
    using str_split_not_Nil [of xs c] by (cases "str_split xs c") auto
  show ?case
  proof (cases "x = c")
    case True
    with Cons ht show ?thesis by simp
  next
    case False
    with Cons ht show ?thesis by (cases t) auto
  qed
qed

lemma str_split_none: "c \<notin> set xs \<Longrightarrow> str_split xs c = [xs]"
  by (induction xs) (auto split: list.splits)

lemma str_split_append_sep:
  "c \<notin> set y \<Longrightarrow> str_split (x @ c # y) c = str_split x c @ [y]"
proof (induction x)
  case Nil
  then show ?case by (simp add: str_split_none)
next
  case (Cons a x)
  then show ?case using str_split_not_Nil [of x c] by (cases "str_split x c") auto
qed

lemma utf8_decode_Ignore_total: "\<exists>t. utf8_decode Ignore bs = Inr t"
proof (induction "length bs" arbitrary: bs rule: less_induct)
  case less
  show ?case
  proof (cases bs)
    case Nil
    then show ?thesis by simp
  next
    case (Cons ch rest)
    have IH: "\<And>k. \<exists>t. utf8_decode Ignore (drop k rest) = Inr t"
      using less [of "drop _ rest"] Cons by simp
    show ?thesis
    proof (cases "utf8_step ch rest")
      case (Decoded cp n)
      with IH [of "n - 1"] Cons show ?thesis by auto
    next
      case (Malformed n)
      with IH [of "n - 1"] Cons show ?thesis by auto
    next
      case Truncated
      with Cons show ?thesis by simp
    qed
  qed
qed

lemma utf8_decode_Strict_Ignore:
  "utf8_decode Strict bs = Inr t \<Longrightarrow> utf8_decode Ignore bs = Inr t"
proof (induction "length bs" arbitrary: bs t rule: less_induct)
  case less
  show ?case
  proof (cases bs)
    case Nil
    with less.prems show ?thesis by simp
  next
    case (Cons ch rest)
    have IH: "\<And>k u. utf8_decode Strict (drop k rest) = Inr u
                \<Longrightarrow> utf8_decode Ignore (drop k rest) = Inr u"
      using less.hyps [of "drop _ rest"] Cons by simp
    show ?thesis
    proof (cases "utf8_step ch rest")
      case (Decoded cp n)
      with less.prems Cons IH [of "n - 1"] show ?thesis
        by (auto split: sum.splits)
    next
      case (Malformed n)
      with less.prems Cons show ?thesis by simp
    next
      case Truncated
      with less.prems Cons show ?thesis by simp
    qed
  qed
qed

lemma open_read_Ignore:
  "open_read fs p Ignore =
     (case fs p of Inl e \<Rightarrow> Inl e
      | Inr bs \<Rightarrow> Inr (universal_newlines (projr (utf8_decode Ignore bs))))"
proof (cases "fs p")
  case (Inl e)
  then show ?thesis by (simp add: open_read_def)
next
  case (Inr bs)
  obtain t where "utf8_decode Ignore bs = Inr t"
    using utf8_decode_Ignore_total by blast
  with Inr show ?thesis by (simp add: open_read_def)
qed

lemma get_df_loop_ok:
  "list_all (\<lambda>p. \<not> isl (fs p)) ps \<Longrightarrow>
   get_df_loop fs ps (cs, ys, ts) =
     Inr (cs @ map (\<lambda>p. str_join (s '' '') (butlast (str_split (stem p) underscore))) ps,
          ys @ map (\<lambda>p. last (str_split (stem p) underscore)) ps,
          ts @ map (\<lambda>p. universal_newlines (projr (utf8_decode Ignore (projr (fs p))))) ps)"
proof (induction ps arbitrary: cs ys ts)
  case Nil
  then show ?case by simp
next
  case (Cons p ps)
  from Cons.prems obtain bs where bs: "fs p = Inr bs"
    by (cases "fs p") auto
  from Cons.prems have rest: "list_all (\<lambda>p. \<not> isl (fs p)) ps" by simp
  show ?case
    by (simp add: Let_def index_last_str_split open_read_Ignore bs slice_but_last_def
          Cons.IH [OF rest])
qed

lemma get_df_loop_fail:
  "i < length ps \<Longrightarrow> fs (ps ! i) = Inl e \<Longrightarrow> \<forall>j<i. \<not> isl (fs (ps ! j)) \<Longrightarrow>
   get_df_loop fs ps (cs, ys, ts) = Inl e"
proof (induction ps arbitrary: i cs ys ts)
  case Nil
  then show ?case by simp
next
  case (Cons p ps)
  show ?case
  proof (cases i)
    case 0
    with Cons.prems show ?thesis
      by (simp add: Let_def index_last_str_split open_read_Ignore)
  next
    case (Suc k)
    with Cons.prems have k: "k < length ps" "fs (ps ! k) = Inl e" by simp_all
    from Cons.prems Suc have before: "\<forall>j<k. \<not> isl (fs (ps ! j))" by auto
    from Cons.prems Suc have "\<not> isl (fs p)" by auto
    then obtain bs where bs: "fs p = Inr bs" by (cases "fs p") auto
    show ?thesis
      by (simp add: Let_def index_last_str_split open_read_Ignore bs
            Cons.IH [OF k before])
  qed
qed

lemma first_failure:
  "\<not> list_all P xs \<Longrightarrow> \<exists>i<length xs. \<not> P (xs ! i) \<and> (\<forall>j<i. P (xs ! j))"
proof (induction xs)
  case Nil
  then show ?case by simp
next
  case (Cons x xs)
  show ?case
  proof (cases "P x")
    case False
    then have "0 < length (x # xs) \<and> \<not> P ((x # xs) ! 0) \<and> (\<forall>j<0. P ((x # xs) ! j))"
      by simp
    then show ?thesis by blast
  next
    case True
    with Cons obtain i where i: "i < length xs" "\<not> P (xs ! i)" "\<forall>j<i. P (xs ! j)"
      by auto
    have "\<forall>j<Suc i. P ((x # xs) ! j)"
      using True i(3) by (auto simp: less_Suc_eq_0_disj)
    with i have "Suc i < length (x # xs) \<and> \<not> P ((x # xs) ! Suc i) \<and> (\<forall>j<Suc i. P ((x # xs) ! j))"
      by simp
    then show ?thesis by blast
  qed
qed

section \<open>Properties of \<^verbatim>\<open>get_df\<close>\<close>

lemma DataFrame_three:
  "length a = n \<Longrightarrow> length b = n \<Longrightarrow> length c = n \<Longrightarrow>
   DataFrame [(x, a), (y, b), (z, c)] = Inr [(x, a), (y, b), (z, c)]"
  by (simp add: DataFrame_def)

lemma get_df_ok:
  "list_all (\<lambda>p. \<not> isl (fs (Path p))) text_files \<Longrightarrow>
   get_df fs text_files =
     Inr [(s ''country'',
           map (\<lambda>p. str_join (s '' '') (butlast (str_split (stem (Path p)) underscore)))
             text_files),
          (s ''year'', map (\<lambda>p. last (str_split (stem (Path p)) underscore)) text_files),
          (s ''constitution'',
           map (\<lambda>p. universal_newlines (projr (utf8_decode Ignore (projr (fs (Path p))))))
             text_files)]"
proof -
  assume "list_all (\<lambda>p. \<not> isl (fs (Path p))) text_files"
  then have "list_all (\<lambda>p. \<not> isl (fs p)) (map Path text_files)"
    by (simp add: list_all_iff)
  from get_df_loop_ok [OF this, of "[]" "[]" "[]"] show ?thesis
    by (simp add: get_df_def DataFrame_three [of _ "length text_files"] comp_def)
qed

lemma get_df_fail:
  "i < length text_files \<Longrightarrow> fs (Path (text_files ! i)) = Inl e \<Longrightarrow>
   \<forall>j<i. \<not> isl (fs (Path (text_files ! j))) \<Longrightarrow> get_df fs text_files = Inl e"
  using get_df_loop_fail [of i "map Path text_files" fs e "[]" "[]" "[]"]
  by (simp add: get_df_def)

lemma get_df_first_failure:
  assumes "\<not> list_all (\<lambda>p. \<not> isl (fs (Path p))) text_files"
  shows "\<exists>i e. i < length text_files \<and> fs (Path (text_files ! i)) = Inl e \<and>
           (\<forall>j<i. \<not> isl (fs (Path (text_files ! j)))) \<and> get_df fs text_files = Inl e"
proof -
  from first_failure [OF assms] obtain i where
    i: "i < length text_files" "isl (fs (Path (text_files ! i)))"
       "\<forall>j<i. \<not> isl (fs (Path (text_files ! j)))"
    by auto
  from i(2) obtain e where e: "fs (Path (text_files ! i)) = Inl e"
    by (cases "fs (Path (text_files ! i))") auto
  from get_df_fail [OF i(1) e i(3)] i e show ?thesis by blast
qed

lemma get_df_Inr_all:
  "get_df fs text_files = Inr df \<Longrightarrow> list_all (\<lambda>p. \<not> isl (fs (Path p))) text_files"
  using get_df_first_failure [of fs text_files] by auto





lemma rfind_Some:
  "rfind xs c = Some i \<Longrightarrow> i < length xs \<and> xs ! i = c \<and> c \<notin> set (drop (Suc i) xs)"
proof (induction xs arbitrary: i)
  case Nil
  then show ?case by simp
next
  case (Cons x xs)
  show ?case
  proof (cases "rfind xs c")
    case None
    have "c \<notin> set xs" using None
      by (induction xs) (auto split: option.splits if_splits)
    with Cons.prems None show ?thesis by (auto split: if_splits)
  next
    case (Some k)
    with Cons.prems have "i = Suc k" by simp
    with Cons.IH [OF Some] show ?thesis by simp
  qed
qed

lemma name_stem_suffix: "name p = stem p @ suffix p"
  by (simp add: stem_def suffix_def split: option.splits)

lemma suffix_one_dot: "dot \<notin> set (tl (suffix p))"
proof (cases "rfind (name p) dot")
  case None
  then show ?thesis by (simp add: suffix_def)
next
  case (Some i)
  from rfind_Some [OF Some] show ?thesis
    by (simp add: suffix_def Some drop_Suc tl_drop)
qed

lemma example_get_df:
  "get_df example_fs example_files =
     Inr [(s ''country'', [s ''South Africa'', [], s ''Brazil'']),
          (s ''year'', [s ''1996'', s ''Nowhereland'', s ''1988.tar'']),
          (s ''constitution'', [[87, 101, 10], [65, 66], [233]])]"
  by (simp add: get_df_def example_fs_def example_files_def s_def Path_def slash_def dot_def
        underscore_def stem_def name_def Let_def index_last_def slice_but_last_def
        open_read_def utf8_step_def is_continuation_def DataFrame_def)

lemma example_stems:
  "map (\<lambda>p. stem (Path p)) example_files =
     [s ''South_Africa_1996'', s ''Nowhereland'', s ''Brazil_1988.tar'']"
  by (simp add: example_files_def s_def Path_def slash_def dot_def stem_def name_def)

text \<open>
  C1. Whatever the paths are, \<^verbatim>\<open>get_df\<close> splits the stem of each file name (the
  last path component without its extension) on \<^verbatim>\<open>'_'\<close>: the segments contain no
  underscore and joined by underscores give the stem back; the year of row \<open>i\<close> is the last
  segment as it stands, the country is the other segments joined by one space. A stem
  without an underscore gives the empty country and the whole stem as the year; a stem
  \<^verbatim>\<open>c_y\<close> with no underscore in \<^verbatim>\<open>y\<close> gives the year \<^verbatim>\<open>y\<close> and as the country the
  segments of \<^verbatim>\<open>c\<close> joined by spaces. Parsing
  raises nothing: an exception of \<^verbatim>\<open>get_df\<close> is always the one raised by opening a file.
\<close>

theorem get_df_parses_file_name:
  "(\<forall>e. get_df fs text_files = Inl e \<longrightarrow> (\<exists>p\<in>set text_files. fs (Path p) = Inl e)) \<and>
   (\<forall>df i. get_df fs text_files = Inr df \<and> i < length text_files \<longrightarrow>
      (\<exists>segs. segs = str_split (stem (Path (text_files ! i))) underscore \<and>
         str_join [underscore] segs = stem (Path (text_files ! i)) \<and>
         (\<forall>g\<in>set segs. underscore \<notin> set g) \<and>
         map_of (row df i) (s ''year'') = Some (last segs) \<and>
         map_of (row df i) (s ''country'') = Some (str_join (s '' '') (butlast segs)) \<and>
         (underscore \<notin> set (stem (Path (text_files ! i))) \<longrightarrow>
            map_of (row df i) (s ''country'') = Some [] \<and>
            map_of (row df i) (s ''year'') = Some (stem (Path (text_files ! i)))) \<and>
         (\<forall>c y. stem (Path (text_files ! i)) = c @ underscore # y \<and> underscore \<notin> set y \<longrightarrow>
            map_of (row df i) (s ''country'') = Some (str_join (s '' '') (str_split c underscore)) \<and>
            map_of (row df i) (s ''year'') = Some y)))"
proof (intro conjI allI impI)
  fix e
  assume e: "get_df fs text_files = Inl e"
  have "\<not> list_all (\<lambda>p. \<not> isl (fs (Path p))) text_files"
    using get_df_ok [of fs text_files] e by auto
  from get_df_first_failure [OF this] e show "\<exists>p\<in>set text_files. fs (Path p) = Inl e"
    by (metis nth_mem sum.inject(1))
next
  fix df i
  assume a: "get_df fs text_files = Inr df \<and> i < length text_files"
  let ?stm = "stem (Path (text_files ! i))"
  let ?segs = "str_split ?stm underscore"
  from a have df: "get_df fs text_files = Inr df" and i: "i < length text_files"
    by simp_all
  have keys: "s ''year'' \<noteq> s ''country''" by (simp add: s_def)
  from get_df_ok [OF get_df_Inr_all [OF df]] df i
  have year: "map_of (row df i) (s ''year'') = Some (last ?segs)"
    and country: "map_of (row df i) (s ''country'') = Some (str_join (s '' '') (butlast ?segs))"
    using keys by (auto simp: row_def)
  have none: "underscore \<notin> set ?stm \<longrightarrow>
      map_of (row df i) (s ''country'') = Some [] \<and> map_of (row df i) (s ''year'') = Some ?stm"
    using year country by (simp add: str_split_none)
  have split: "\<forall>c y. ?stm = c @ underscore # y \<and> underscore \<notin> set y \<longrightarrow>
      map_of (row df i) (s ''country'') = Some (str_join (s '' '') (str_split c underscore)) \<and>
      map_of (row df i) (s ''year'') = Some y"
    using year country by (auto simp: str_split_append_sep)
  have "\<forall>g\<in>set ?segs. underscore \<notin> set g"
    using str_split_no_sep by blast
  with year country none split str_join_split [of underscore ?stm]
  show "\<exists>segs. segs = ?segs \<and> str_join [underscore] segs = ?stm \<and>
         (\<forall>g\<in>set segs. underscore \<notin> set g) \<and>
         map_of (row df i) (s ''year'') = Some (last segs) \<and>
         map_of (row df i) (s ''country'') = Some (str_join (s '' '') (butlast segs)) \<and>
         (underscore \<notin> set ?stm \<longrightarrow>
            map_of (row df i) (s ''country'') = Some [] \<and>
            map_of (row df i) (s ''year'') = Some ?stm) \<and>
         (\<forall>c y. ?stm = c @ underscore # y \<and> underscore \<notin> set y \<longrightarrow>
            map_of (row df i) (s ''country'') = Some (str_join (s '' '') (str_split c underscore)) \<and>
            map_of (row df i) (s ''year'') = Some y)"
    by blast
qed

theorem get_df_parses_file_name_witness:
  "get_df example_fs example_files =
     Inr [(s ''country'', [s ''South Africa'', [], s ''Brazil'']),
          (s ''year'', [s ''1996'', s ''Nowhereland'', s ''1988.tar'']),
          (s ''constitution'', [[87, 101, 10], [65, 66], [233]])] \<and>
   map_of (row [(s ''country'', [s ''South Africa'', [], s ''Brazil'']),
                (s ''year'', [s ''1996'', s ''Nowhereland'', s ''1988.tar'']),
                (s ''constitution'', [[87, 101, 10], [65, 66], [233]])] 1) (s ''country'')
     = Some [] \<and>
   map_of (row [(s ''country'', [s ''South Africa'', [], s ''Brazil'']),
                (s ''year'', [s ''1996'', s ''Nowhereland'', s ''1988.tar'']),
                (s ''constitution'', [[87, 101, 10], [65, 66], [233]])] 1) (s ''year'')
     = Some (s ''Nowhereland'')"
proof -
  let ?T = "[(s ''country'', [s ''South Africa'', [], s ''Brazil'']),
             (s ''year'', [s ''1996'', s ''Nowhereland'', s ''1988.tar'']),
             (s ''constitution'', [[87, 101, 10], [65, 66], [233]])]"
  have h: "get_df example_fs example_files = Inr ?T \<and> 1 < length example_files"
    using example_get_df by (simp add: example_files_def [THEN arg_cong, of length])
  have stm: "stem (Path (example_files ! 1)) = s ''Nowhereland''"
    using example_stems by (simp add: example_files_def)
  have nus: "underscore \<notin> set (s ''Nowhereland'')"
    by (simp add: s_def underscore_def)
  from get_df_parses_file_name [of example_fs example_files, THEN conjunct2, rule_format, OF h]
  have "map_of (row ?T 1) (s ''country'') = Some [] \<and>
        map_of (row ?T 1) (s ''year'') = Some (s ''Nowhereland'')"
    using stm nus by auto
  with h show ?thesis by simp
qed

text \<open>
  C3. When \<^verbatim>\<open>get_df\<close> returns a table, the table has as many rows as there are
  paths, every column has that length, and row \<open>i\<close> holds the country and year parsed
  from the \<open>i\<close>-th path and the decoded content of the file at the \<open>i\<close>-th path: the
  order is the order of the input, nothing is skipped, merged or moved.
\<close>

theorem get_df_one_row_per_file:
  assumes "get_df fs text_files = Inr df"
  shows "nrows df = length text_files \<and>
         list_all (\<lambda>c. length (snd c) = length text_files) df \<and>
         (\<forall>i<length text_files.
            \<exists>bs t. fs (Path (text_files ! i)) = Inr bs \<and> utf8_decode Ignore bs = Inr t \<and>
              row df i =
                [(s ''country'',
                  str_join (s '' '')
                    (butlast (str_split (stem (Path (text_files ! i))) underscore))),
                 (s ''year'', last (str_split (stem (Path (text_files ! i))) underscore)),
                 (s ''constitution'', universal_newlines t)])"
proof -
  have all: "list_all (\<lambda>p. \<not> isl (fs (Path p))) text_files"
    using assms by (rule get_df_Inr_all)
  note df = get_df_ok [OF all, unfolded assms, simplified]
  have rows: "nrows df = length text_files"
    and cols: "list_all (\<lambda>c. length (snd c) = length text_files) df"
    by (simp_all add: df nrows_def)
  have "\<exists>bs t. fs (Path (text_files ! i)) = Inr bs \<and> utf8_decode Ignore bs = Inr t \<and>
          row df i =
            [(s ''country'',
              str_join (s '' '')
                (butlast (str_split (stem (Path (text_files ! i))) underscore))),
             (s ''year'', last (str_split (stem (Path (text_files ! i))) underscore)),
             (s ''constitution'', universal_newlines t)]"
    if i: "i < length text_files" for i
  proof -
    from all i have "\<not> isl (fs (Path (text_files ! i)))"
      by (simp add: list_all_length)
    then obtain bs where bs: "fs (Path (text_files ! i)) = Inr bs"
      by (cases "fs (Path (text_files ! i))") auto
    obtain t where t: "utf8_decode Ignore bs = Inr t"
      using utf8_decode_Ignore_total by blast
    from i bs t show ?thesis by (simp add: df row_def)
  qed
  with rows cols show ?thesis by blast
qed

theorem get_df_one_row_per_file_witness:
  "nrows [(s ''country'', [s ''South Africa'', [], s ''Brazil'']),
          (s ''year'', [s ''1996'', s ''Nowhereland'', s ''1988.tar'']),
          (s ''constitution'', [[87, 101, 10], [65, 66], [233]])] = length example_files \<and>
   row [(s ''country'', [s ''South Africa'', [], s ''Brazil'']),
        (s ''year'', [s ''1996'', s ''Nowhereland'', s ''1988.tar'']),
        (s ''constitution'', [[87, 101, 10], [65, 66], [233]])] 2
     = [(s ''country'', s ''Brazil''), (s ''year'', s ''1988.tar''), (s ''constitution'', [233])] \<and>
   length example_files = 3"
  using get_df_one_row_per_file [OF example_get_df]
  by (simp add: example_files_def [THEN arg_cong, of length] row_def)

text \<open>
  C5, as amended. The table \<^verbatim>\<open>get_df\<close> returns has exactly three columns, named
  \<^verbatim>\<open>country\<close>, \<^verbatim>\<open>year\<close> and \<^verbatim>\<open>constitution\<close>, in this order. The third column
  is not named \<^verbatim>\<open>text\<close>: the counterexample evaluates the column names on the example
  files.
\<close>

theorem get_df_columns:
  assumes "get_df fs text_files = Inr df"
  shows "columns df = [s ''country'', s ''year'', s ''constitution''] \<and>
         length (columns df) = 3 \<and> distinct (columns df)"
proof -
  have all: "list_all (\<lambda>p. \<not> isl (fs (Path p))) text_files"
    using assms by (rule get_df_Inr_all)
  note df = get_df_ok [OF all, unfolded assms, simplified]
  show ?thesis by (simp add: df columns_def s_def)
qed

theorem get_df_columns_witness:
  "columns [(s ''country'', [s ''South Africa'', [], s ''Brazil'']),
            (s ''year'', [s ''1996'', s ''Nowhereland'', s ''1988.tar'']),
            (s ''constitution'', [[87, 101, 10], [65, 66], [233]])]
     = [s ''country'', s ''year'', s ''constitution'']"
  using get_df_columns [OF example_get_df] by simp

theorem get_df_columns_counterexample:
  "get_df example_fs example_files =
     Inr [(s ''country'', [s ''South Africa'', [], s ''Brazil'']),
          (s ''year'', [s ''1996'', s ''Nowhereland'', s ''1988.tar'']),
          (s ''constitution'', [[87, 101, 10], [65, 66], [233]])] \<and>
   columns [(s ''country'', [s ''South Africa'', [], s ''Brazil'']),
            (s ''year'', [s ''1996'', s ''Nowhereland'', s ''1988.tar'']),
            (s ''constitution'', [[87, 101, 10], [65, 66], [233]])]
     \<noteq> [s ''country'', s ''year'', s ''text'']"
  using example_get_df by (simp add: columns_def s_def)

text \<open>
  C7. If opening any of the files fails, \<^verbatim>\<open>get_df\<close> raises the exception of the
  first file that fails to open, and returns no table at all: no file is skipped and no
  shorter table comes back.
\<close>

theorem get_df_open_failure_propagates:
  assumes "\<exists>p\<in>set text_files. isl (fs (Path p))"
  shows "(\<exists>i e. i < length text_files \<and> fs (Path (text_files ! i)) = Inl e \<and>
            (\<forall>j<i. \<not> isl (fs (Path (text_files ! j)))) \<and> get_df fs text_files = Inl e) \<and>
         (\<forall>df. get_df fs text_files \<noteq> Inr df)"
proof -
  from assms have "\<not> list_all (\<lambda>p. \<not> isl (fs (Path p))) text_files"
    by (simp add: list_all_iff)
  from get_df_first_failure [OF this] show ?thesis by auto
qed

lemma example_get_df_missing:
  "get_df example_fs [s ''Nowhereland.txt'', s ''Atlantis_1.txt'', s ''Brazil_1988.tar.gz'']
     = Inl (FileNotFoundError (s ''Atlantis_1.txt''))"
  by (simp add: get_df_def example_fs_def s_def Path_def slash_def dot_def
        underscore_def stem_def name_def Let_def index_last_def slice_but_last_def fspath_def
        open_read_def utf8_step_def is_continuation_def DataFrame_def)

theorem get_df_open_failure_propagates_witness:
  "isl (example_fs (Path (s ''Atlantis_1.txt''))) \<and>
   get_df example_fs [s ''Nowhereland.txt'', s ''Atlantis_1.txt'', s ''Brazil_1988.tar.gz'']
     = Inl (FileNotFoundError (s ''Atlantis_1.txt''))"
proof -
  have missing: "isl (example_fs (Path (s ''Atlantis_1.txt'')))"
    by (simp add: example_fs_def s_def Path_def slash_def dot_def)
  then have "\<exists>p\<in>set [s ''Nowhereland.txt'', s ''Atlantis_1.txt'', s ''Brazil_1988.tar.gz''].
               isl (example_fs (Path p))"
    by simp
  from get_df_open_failure_propagates [OF this] missing example_get_df_missing
  show ?thesis by simp
qed

text \<open>
  C9. \<^verbatim>\<open>get_df\<close> reads with \<^verbatim>\<open>errors='ignore'\<close>: decoding under this handler
  returns a string for every sequence of bytes, the same string as strict decoding when
  strict decoding succeeds; so reading a file that opens never raises, and when every file
  opens \<^verbatim>\<open>get_df\<close> returns a table whatever the bytes of the files are.
\<close>

theorem get_df_lossy_decode:
  "(\<forall>bs. \<exists>t. utf8_decode Ignore bs = Inr t \<and> (\<forall>u. utf8_decode Strict bs = Inr u \<longrightarrow> u = t)) \<and>
   (\<forall>p bs. fs p = Inr bs \<longrightarrow>
      (\<exists>t. utf8_decode Ignore bs = Inr t \<and>
           open_read fs p Ignore = Inr (universal_newlines t))) \<and>
   ((\<forall>p\<in>set text_files. \<exists>bs. fs (Path p) = Inr bs) \<longrightarrow>
      (\<exists>df. get_df fs text_files = Inr df))"
proof (intro conjI allI impI)
  fix bs
  obtain t where t: "utf8_decode Ignore bs = Inr t"
    using utf8_decode_Ignore_total by blast
  then have "\<forall>u. utf8_decode Strict bs = Inr u \<longrightarrow> u = t"
    using utf8_decode_Strict_Ignore by fastforce
  with t show "\<exists>t. utf8_decode Ignore bs = Inr t \<and> (\<forall>u. utf8_decode Strict bs = Inr u \<longrightarrow> u = t)"
    by blast
next
  fix p bs
  assume bs: "fs p = Inr bs"
  obtain t where t: "utf8_decode Ignore bs = Inr t"
    using utf8_decode_Ignore_total by blast
  with bs show "\<exists>t. utf8_decode Ignore bs = Inr t \<and>
                    open_read fs p Ignore = Inr (universal_newlines t)"
    by (simp add: open_read_def)
next
  assume "\<forall>p\<in>set text_files. \<exists>bs. fs (Path p) = Inr bs"
  then have "list_all (\<lambda>p. \<not> isl (fs (Path p))) text_files"
    by (auto simp: list_all_iff)
  from get_df_ok [OF this] show "\<exists>df. get_df fs text_files = Inr df"
    by blast
qed

theorem get_df_lossy_decode_witness:
  "example_fs (Path (s ''Nowhereland.txt'')) = Inr [0x41, 0xFF, 0x42] \<and>
   utf8_decode Strict [0x41, 0xFF, 0x42] = Inl (UnicodeDecodeError (s ''invalid byte'')) \<and>
   open_read example_fs (Path (s ''Nowhereland.txt'')) Ignore = Inr [65, 66]"
proof -
  have f: "example_fs (Path (s ''Nowhereland.txt'')) = Inr [0x41, 0xFF, 0x42]"
    by (simp add: example_fs_def s_def Path_def slash_def dot_def)
  have strict: "utf8_decode Strict [0x41, 0xFF, 0x42]
                  = Inl (UnicodeDecodeError (s ''invalid byte''))"
    by (simp add: utf8_step_def)
  have ign: "utf8_decode Ignore [0x41, 0xFF, 0x42] = Inr [65, 66]"
    by (simp add: utf8_step_def)
  from get_df_lossy_decode [of example_fs, THEN conjunct2, THEN conjunct1, rule_format, OF f]
  have "open_read example_fs (Path (s ''Nowhereland.txt'')) Ignore = Inr [65, 66]"
    using ign by auto
  with f strict show ?thesis by simp
qed

text \<open>
  C10. The stem drops only the last extension: the name is the stem followed by the
  suffix, and the suffix holds no dot after its first character. For
  \<^verbatim>\<open>Brazil_1988.tar.gz\<close> the stem is \<^verbatim>\<open>Brazil_1988.tar\<close>, and \<^verbatim>\<open>get_df\<close> gives the
  country \<^verbatim>\<open>Brazil\<close> and the year \<^verbatim>\<open>1988.tar\<close>.
\<close>

theorem stem_strips_final_extension_only:
  "stem (Path (s ''Brazil_1988.tar.gz'')) = s ''Brazil_1988.tar'' \<and>
   (\<forall>fs bs. fs (Path (s ''Brazil_1988.tar.gz'')) = Inr bs \<longrightarrow>
      (\<exists>t. get_df fs [s ''Brazil_1988.tar.gz''] =
             Inr [(s ''country'', [s ''Brazil'']),
                  (s ''year'', [s ''1988.tar'']),
                  (s ''constitution'', [t])])) \<and>
   (\<forall>p. name p = stem p @ suffix p \<and> dot \<notin> set (tl (suffix p)))"
proof (intro conjI allI impI)
  show stm: "stem (Path (s ''Brazil_1988.tar.gz'')) = s ''Brazil_1988.tar''"
    by (simp add: s_def Path_def slash_def dot_def stem_def name_def)
  have segs: "str_split (s ''Brazil_1988.tar'') underscore = [s ''Brazil'', s ''1988.tar'']"
    by (simp add: s_def underscore_def)
  fix fs :: filesystem and bs
  assume "fs (Path (s ''Brazil_1988.tar.gz'')) = Inr bs"
  then have "list_all (\<lambda>p. \<not> isl (fs (Path p))) [s ''Brazil_1988.tar.gz'']"
    by simp
  from get_df_ok [OF this]
  show "\<exists>t. get_df fs [s ''Brazil_1988.tar.gz''] =
             Inr [(s ''country'', [s ''Brazil'']),
                  (s ''year'', [s ''1988.tar'']),
                  (s ''constitution'', [t])]"
    by (simp add: stm segs)
next
  fix p
  show "name p = stem p @ suffix p" by (rule name_stem_suffix)
  show "dot \<notin> set (tl (suffix p))" by (rule suffix_one_dot)
qed

theorem stem_strips_final_extension_only_witness:
  "example_fs (Path (s ''Brazil_1988.tar.gz'')) = Inr [0xC3, 0xA9] \<and>
   (\<exists>t. get_df example_fs [s ''Brazil_1988.tar.gz''] =
             Inr [(s ''country'', [s ''Brazil'']),
                  (s ''year'', [s ''1988.tar'']),
                  (s ''constitution'', [t])])"
proof -
  have f: "example_fs (Path (s ''Brazil_1988.tar.gz'')) = Inr [0xC3, 0xA9]"
    by (simp add: example_fs_def s_def Path_def slash_def dot_def)
  from stem_strips_final_extension_only
         [THEN conjunct2, THEN conjunct1, rule_format, of example_fs, OF f] f
  show ?thesis by simp
qed

section \<open>Properties of \<^verbatim>\<open>lemmatization\<close> and \<^verbatim>\<open>save_parquet\<close>\<close>

lemma concat_minibatch: "0 < n \<Longrightarrow> concat (minibatch xs n) = xs"
proof (induction xs n rule: minibatch.induct)
  case (1 items sz)
  show ?case
  proof (cases "items = []")
    case True
    then show ?thesis by (simp add: minibatch.simps)
  next
    case False
    with 1 show ?thesis by (simp add: minibatch.simps [of items sz])
  qed
qed

lemma collect_append:
  "collect f (xs @ ys) =
     (case collect f xs of
        Inl e \<Rightarrow> Inl e
      | Inr a \<Rightarrow> (case collect f ys of Inl e \<Rightarrow> Inl e | Inr b \<Rightarrow> Inr (a @ b)))"
  by (induction xs) (auto split: sum.splits)

lemma collect_batches:
  "(case collect (collect f) xss of Inl e \<Rightarrow> Inl e | Inr yss \<Rightarrow> Inr (concat yss))
     = collect f (concat xss)"
  by (induction xss) (auto simp: collect_append split: sum.splits)

lemma pipe_collect: "0 < n \<Longrightarrow> pipe nlp texts n = collect nlp texts"
  by (simp add: pipe_def collect_batches concat_minibatch)

lemma collect_Inr_D:
  "collect f xs = Inr ys \<Longrightarrow> list_all2 (\<lambda>x y. f x = Inr y) xs ys"
  by (induction xs arbitrary: ys) (auto split: sum.splits)

lemma collect_ok:
  "\<forall>x\<in>set xs. f x = Inr (g x) \<Longrightarrow> collect f xs = Inr (map g xs)"
  by (induction xs) auto

lemma lemmatization_loaded:
  "spacy_load model [s ''parser'', s ''ner''] = Inr nlp \<Longrightarrow>
   lemmatization spacy_load lower texts model =
     (case collect nlp texts of
        Inl e \<Rightarrow> Inl e
      | Inr docs \<Rightarrow>
          Inr (map (\<lambda>doc. map (\<lambda>token. lower (lemma_str token))
                             (filter (\<lambda>token. \<not> is_punct token) doc)) docs))"
  by (simp add: lemmatization_def pipe_collect)

text \<open>
  C2. With the model loaded and every text processed, \<^verbatim>\<open>lemmatization\<close> returns, for
  each text in the order of the input, the lowercased lemmas of the tokens of that text
  that are not punctuation, in the order of the tokens; no punctuation token is in the
  output. The batches of 50 leave no trace in the result.
\<close>

theorem lemmatization_lowercase_lemmas_without_punctuation:
  assumes "spacy_load model [s ''parser'', s ''ner''] = Inr nlp"
    and "\<forall>text\<in>set texts. nlp text = Inr (tokens text)"
  shows "lemmatization spacy_load lower texts model =
           Inr (map (\<lambda>text. map (\<lambda>token. lower (lemma_str token))
                               (filter (\<lambda>token. \<not> is_punct token) (tokens text)))
                  texts)"
  by (simp add: lemmatization_loaded [of spacy_load model nlp, OF assms(1)]
        collect_ok [of texts nlp tokens, OF assms(2)] comp_def)

lemma example_load_default:
  "example_load default_model [s ''parser'', s ''ner''] = Inr example_nlp"
  by (simp add: example_load_def)

theorem lemmatization_lowercase_lemmas_without_punctuation_witness:
  "lemmatization example_load ascii_lower [s ''The Constitution.'', []] default_model
     = Inr [[s ''the'', s ''constitution''], []]"
proof -
  have toks: "\<forall>text\<in>set [s ''The Constitution.'', []].
                example_nlp text = Inr (projr (example_nlp text))"
    by (simp add: example_nlp_def s_def)
  have "projr (example_nlp (s ''The Constitution.'')) =
          [\<lparr>lemma_str = s ''the'', is_punct = False\<rparr>,
           \<lparr>lemma_str = s ''Constitution'', is_punct = False\<rparr>,
           \<lparr>lemma_str = s ''.'', is_punct = True\<rparr>]"
    and "projr (example_nlp []) = []"
    by (simp_all add: example_nlp_def s_def)
  with lemmatization_lowercase_lemmas_without_punctuation
         [of example_load default_model example_nlp "[s ''The Constitution.'', []]"
            "\<lambda>text. projr (example_nlp text)" ascii_lower, OF example_load_default toks]
  show ?thesis by (simp add: ascii_lower_def s_def)
qed

text \<open>
  C4. When \<^verbatim>\<open>lemmatization\<close> returns, the output has one entry per text and entry
  \<open>i\<close> is built from the tokens of text \<open>i\<close>. With a pipeline that finds no token in the
  empty text, the entry of an empty text is the empty list (it is not left out), and
  \<^verbatim>\<open>lemmatization([""])\<close> is \<^verbatim>\<open>[[]]\<close>.
\<close>

theorem lemmatization_one_entry_per_text:
  assumes "lemmatization spacy_load lower texts model = Inr out"
  shows "length out = length texts \<and>
         (\<exists>nlp. spacy_load model [s ''parser'', s ''ner''] = Inr nlp \<and>
            (\<forall>i<length texts. \<exists>tokens. nlp (texts ! i) = Inr tokens \<and>
               out ! i = map (\<lambda>token. lower (lemma_str token))
                           (filter (\<lambda>token. \<not> is_punct token) tokens)) \<and>
            (nlp [] = Inr [] \<longrightarrow>
               (\<forall>i<length texts. texts ! i = [] \<longrightarrow> out ! i = []) \<and>
               lemmatization spacy_load lower [[]] model = Inr [[]]))"
proof -
  from assms obtain nlp where nlp: "spacy_load model [s ''parser'', s ''ner''] = Inr nlp"
    by (cases "spacy_load model [s ''parser'', s ''ner'']")
       (auto simp: lemmatization_def split: if_splits)
  let ?emit = "\<lambda>doc. map (\<lambda>token. lower (lemma_str token))
                         (filter (\<lambda>token. \<not> is_punct token) doc)"
  from assms obtain docs where docs: "collect nlp texts = Inr docs" and out: "out = map ?emit docs"
    by (auto simp: lemmatization_loaded [of spacy_load model nlp, OF nlp] split: sum.splits)
  from docs have l2: "list_all2 (\<lambda>x y. nlp x = Inr y) texts docs"
    by (rule collect_Inr_D)
  then have len: "length docs = length texts"
    by (simp add: list_all2_lengthD)
  have each: "\<forall>i<length texts. nlp (texts ! i) = Inr (docs ! i)"
    using l2 by (simp add: list_all2_conv_all_nth)
  have entries: "\<forall>i<length texts. \<exists>tokens. nlp (texts ! i) = Inr tokens \<and> out ! i = ?emit tokens"
    using each len by (simp add: out)
  have empty: "\<forall>i<length texts. texts ! i = [] \<longrightarrow> out ! i = []" if "nlp [] = Inr []"
    using each len that by (auto simp: out)
  have single: "lemmatization spacy_load lower [[]] model = Inr [[]]" if "nlp [] = Inr []"
    using that by (simp add: lemmatization_loaded [of spacy_load model nlp, OF nlp])
  from len nlp entries empty single show ?thesis
    by (auto simp: out)
qed

theorem lemmatization_one_entry_per_text_witness:
  "lemmatization example_load ascii_lower [[], s ''The Constitution.'', []] default_model
     = Inr [[], [s ''the'', s ''constitution''], []] \<and>
   lemmatization example_load ascii_lower [[]] default_model = Inr [[]]"
proof -
  have run: "lemmatization example_load ascii_lower [[], s ''The Constitution.'', []] default_model
               = Inr [[], [s ''the'', s ''constitution''], []]"
    by (simp add: lemmatization_loaded
            [of example_load default_model example_nlp, OF example_load_default] example_nlp_def
          ascii_lower_def s_def)
  have e: "example_nlp [] = Inr []" by (simp add: example_nlp_def s_def)
  from lemmatization_one_entry_per_text [OF run] example_load_default e
  have "lemmatization example_load ascii_lower [[]] default_model = Inr [[]]"
    by auto
  with run show ?thesis by simp
qed

text \<open>
  C6, as amended. When loading the model raises, \<^verbatim>\<open>lemmatization\<close> raises whatever
  the texts are: the result does not depend on them and is never an output, partial or
  not. When the loader raises \<^verbatim>\<open>OSError\<close> or one of its subclasses (the model is not
  found), the exception is an \<^verbatim>\<open>OSError\<close> whose message names the model and ends with
  the command that installs it. Any other exception of the loader is raised as it is:
  the \<^verbatim>\<open>except\<close> clause catches \<^verbatim>\<open>OSError\<close> only. The counterexample is a loader
  that raises \<^verbatim>\<open>ValueError\<close>: the caller gets that \<^verbatim>\<open>ValueError\<close>, not the message
  about the model.
\<close>

theorem lemmatization_model_not_found:
  assumes "spacy_load model [s ''parser'', s ''ner''] = Inl e"
  shows "(\<forall>texts. lemmatization spacy_load lower texts model
                    = Inl (if is_OSError e then OSError (not_found_message model) else e)) \<and>
         (\<exists>e'. \<forall>texts. lemmatization spacy_load lower texts model = Inl e') \<and>
         (is_OSError e \<longrightarrow>
            (\<forall>texts. lemmatization spacy_load lower texts model
                       = Inl (OSError (not_found_message model))) \<and>
            (\<exists>a b. not_found_message model = a @ model @ b) \<and>
            (\<exists>a. not_found_message model = a @ s ''python -m spacy download '' @ model)) \<and>
         (\<not> is_OSError e \<longrightarrow>
            (\<forall>texts. lemmatization spacy_load lower texts model = Inl e))"
proof -
  have result: "\<forall>texts. lemmatization spacy_load lower texts model
                  = Inl (if is_OSError e then OSError (not_found_message model) else e)"
    using assms by (simp add: lemmatization_def)
  then have fails: "\<exists>e'. \<forall>texts. lemmatization spacy_load lower texts model = Inl e'"
    by blast
  have os: "\<forall>texts. lemmatization spacy_load lower texts model
                      = Inl (OSError (not_found_message model))" if "is_OSError e"
    using result that by simp
  have other: "\<forall>texts. lemmatization spacy_load lower texts model = Inl e"
    if "\<not> is_OSError e"
    using result that by simp
  have names: "\<exists>a b. not_found_message model = a @ model @ b"
    unfolding not_found_message_def by (metis append.assoc)
  have install: "\<exists>a. not_found_message model = a @ s ''python -m spacy download '' @ model"
    unfolding not_found_message_def by (metis append.assoc)
  from result fails os other names install show ?thesis by blast
qed

theorem lemmatization_model_not_found_witness:
  "example_load (s ''xx_missing'') [s ''parser'', s ''ner'']
     = Inl (OSError (s ''[E050] Can't find model'')) \<and>
   lemmatization example_load ascii_lower [s ''The Constitution.''] (s ''xx_missing'')
     = Inl (OSError (not_found_message (s ''xx_missing'')))"
proof -
  have l: "example_load (s ''xx_missing'') [s ''parser'', s ''ner'']
             = Inl (OSError (s ''[E050] Can't find model''))"
    by (simp add: example_load_def default_model_def s_def)
  from lemmatization_model_not_found
         [of example_load "s ''xx_missing''" "OSError (s ''[E050] Can't find model'')"
             ascii_lower, OF l] l
  show ?thesis by simp
qed

theorem lemmatization_model_not_found_counterexample:
  "example_load_invalid default_model [s ''parser'', s ''ner'']
     = Inl (ValueError (s ''[E054] No valid setting found in model meta.json'')) \<and>
   \<not> is_OSError (ValueError (s ''[E054] No valid setting found in model meta.json'')) \<and>
   lemmatization example_load_invalid ascii_lower [s ''The Constitution.''] default_model
     = Inl (ValueError (s ''[E054] No valid setting found in model meta.json'')) \<and>
   lemmatization example_load_invalid ascii_lower [s ''The Constitution.''] default_model
     \<noteq> Inl (OSError (not_found_message default_model))"
  by (simp add: lemmatization_def example_load_invalid_def)

text \<open>
  C8. For a path whose suffix is not \<^verbatim>\<open>.parquet\<close>, \<^verbatim>\<open>save_parquet\<close> raises
  \<^verbatim>\<open>ValueError\<close> and leaves the world as it was, whatever \<^verbatim>\<open>to_parquet\<close> and the
  logger would do: nothing is written and nothing is logged. \<^verbatim>\<open>x.csv\<close> is such a path.
\<close>

theorem save_parquet_rejects_other_extensions:
  "(suffix (Path p) \<noteq> s ''.parquet'' \<longrightarrow>
      save_parquet to_parquet logger_info w df p =
        (w, Inl (ValueError (s ''Output path must end with .parquet extension'')))) \<and>
   suffix (Path (s ''x.csv'')) \<noteq> s ''.parquet'' \<and>
   save_parquet to_parquet logger_info w df (s ''x.csv'') =
     (w, Inl (ValueError (s ''Output path must end with .parquet extension'')))"
proof -
  have csv: "suffix (Path (s ''x.csv'')) \<noteq> s ''.parquet''"
    by (simp add: s_def Path_def slash_def dot_def suffix_def name_def)
  then show ?thesis by (simp add: save_parquet_def Let_def)
qed

theorem save_parquet_rejects_other_extensions_witness:
  "save_parquet (\<lambda>w df path engine compression. ((path, df) # w, Inr ())) (\<lambda>w message. w)
     [] [(s ''country'', [s ''Brazil''])] (s ''out/table.parquet.bak'')
     = ([], Inl (ValueError (s ''Output path must end with .parquet extension'')))"
proof -
  have "suffix (Path (s ''out/table.parquet.bak'')) \<noteq> s ''.parquet''"
    by (simp add: s_def Path_def slash_def dot_def suffix_def name_def)
  with save_parquet_rejects_other_extensions
         [of "s ''out/table.parquet.bak''" "\<lambda>w df path engine compression. ((path, df) # w, Inr ())"
             "\<lambda>w message. w" "[]" "[(s ''country'', [s ''Brazil''])]"]
  show ?thesis by blast
qed

end
